theory Spec2Isabelle
  imports Main "HOL-Library.AList"
begin

section \<open>Anomaly records of the vehicle service (services/vehicle/lib/anomaly.js)\<close>

subsection \<open>Values, items and callers\<close>

text \<open>
  The items of both tables are JavaScript objects as the DocumentClient hands them over.
  A property list keeps the order of the properties; assigning to a property
  (\<^verbatim>\<open>Item.acknowledged = true\<close>) replaces the value in place when the property exists and
  appends it otherwise, which is what \<open>AList.update\<close> does. Numbers are never computed
  with in this module, so integers stand for them.
\<close>

datatype jsval =
    JString string
  | JNumber int
  | JBool bool
  | JNull
  | JList "jsval list"
  | JMap "(string \<times> jsval) list"

type_synonym item = "(string \<times> jsval) list"

text \<open>
  The authentication ticket. Only \<^verbatim>\<open>ticket['cognito:username']\<close> is read; the caller
  contract (a ticket that carries a username, a string) is in the type.
\<close>

record ticket =
  cognito_username :: string
  other_claims :: item

subsection \<open>The document client\<close>

text \<open>
  Modelled from the spec: the store behind \<^verbatim>\<open>AWS.DynamoDB.DocumentClient\<close>, an external
  dependency of the repository (the spec's abstract store interface: ownershipLookup,
  anomalyQueryByVehicle, anomalyGet, anomalyPut). A table is the list of its items, and the
  key of an item is read from its two key attributes. Every call is recorded in \<open>calls\<close>.
  Whether a call fails is decided by the environment: \<open>faults\<close> holds, for the calls still
  to come, the error each of them fails with (\<open>None\<close>, and the empty list, mean that the
  call is answered). A failure is a failure to communicate with the store (network,
  throttling, a malformed response), so it may come before or after the store has carried
  the request out: \<open>applied\<close> holds, for the same calls, whether the store carries the
  request out although the call fails (the empty list means that it does not), which
  matters for a write only. A query is answered one page at a time: \<open>page_limit\<close> is the
  number of items after which the store cuts a response, \<open>0\<close> for a store that never
  cuts one; a response that was cut carries the key of its last item as
  \<open>LastEvaluatedKey\<close>.
\<close>

datatype table_name = ownerTable | ddbTable

datatype aws_error = AWSError (err_code: string) (err_message: string)

datatype access =
    Get table_name string string
  | Query table_name string string
  | Put table_name item

record get_output =
  Item :: "item option"

record query_output =
  Items :: "item list"
  Count :: nat
  ScannedCount :: nat
  LastEvaluatedKey :: "item option"

record world =
  owners :: "item list"
  anomalies :: "item list"
  faults :: "aws_error option list"
  applied :: "bool list"
  page_limit :: nat
  calls :: "access list"
  console :: "aws_error list"

fun key_schema :: "table_name \<Rightarrow> string \<times> string" where
  "key_schema ownerTable = (''owner_id'', ''vin'')"
| "key_schema ddbTable = (''vin'', ''anomaly_id'')"

definition item_key :: "table_name \<Rightarrow> item \<Rightarrow> (string \<times> string) option" where
  "item_key tn it =
     (case map_of it (fst (key_schema tn)) of
        Some (JString a) \<Rightarrow>
          (case map_of it (snd (key_schema tn)) of
             Some (JString b) \<Rightarrow> Some (a, b)
           | _ \<Rightarrow> None)
      | _ \<Rightarrow> None)"

definition key_of :: "table_name \<Rightarrow> item \<Rightarrow> item" where
  "key_of tn it =
     filter (\<lambda>(k, v). k = fst (key_schema tn) \<or> k = snd (key_schema tn)) it"

fun table_items :: "table_name \<Rightarrow> world \<Rightarrow> item list" where
  "table_items ownerTable w = owners w"
| "table_items ddbTable w = anomalies w"

fun set_table_items :: "table_name \<Rightarrow> item list \<Rightarrow> world \<Rightarrow> world" where
  "set_table_items ownerTable its w = w\<lparr>owners := its\<rparr>"
| "set_table_items ddbTable its w = w\<lparr>anomalies := its\<rparr>"

definition next_fault :: "world \<Rightarrow> aws_error option" where
  "next_fault w = (case faults w of [] \<Rightarrow> None | f # fs \<Rightarrow> f)"

definition next_applied :: "world \<Rightarrow> bool" where
  "next_applied w = (case applied w of [] \<Rightarrow> False | b # bs \<Rightarrow> b)"

definition called :: "access \<Rightarrow> world \<Rightarrow> world" where
  "called a w =
     w\<lparr>faults := drop 1 (faults w), applied := drop 1 (applied w), calls := calls w @ [a]\<rparr>"

definition get_item :: "table_name \<Rightarrow> string \<Rightarrow> string \<Rightarrow> item list \<Rightarrow> item option" where
  "get_item tn k1 k2 its = find (\<lambda>it. item_key tn it = Some (k1, k2)) its"

fun put_item :: "table_name \<Rightarrow> item \<Rightarrow> item list \<Rightarrow> item list" where
  "put_item tn it [] = [it]"
| "put_item tn it (x # xs) =
     (if item_key tn x = item_key tn it then it # xs else x # put_item tn it xs)"

definition ValidationException :: aws_error where
  "ValidationException =
     AWSError ''ValidationException'' ''One of the required keys was not given a value''"

definition docClient_get ::
  "table_name \<Rightarrow> string \<Rightarrow> string \<Rightarrow> world \<Rightarrow> (aws_error + get_output) \<times> world" where
  "docClient_get tn k1 k2 w =
     (case next_fault w of
        Some err \<Rightarrow> (Inl err, called (Get tn k1 k2) w)
      | None \<Rightarrow>
          (Inr \<lparr>Item = get_item tn k1 k2 (table_items tn w)\<rparr>, called (Get tn k1 k2) w))"

definition docClient_query ::
  "table_name \<Rightarrow> string \<Rightarrow> string \<Rightarrow> world \<Rightarrow> (aws_error + query_output) \<times> world" where
  "docClient_query tn attr v w =
     (case next_fault w of
        Some err \<Rightarrow> (Inl err, called (Query tn attr v) w)
      | None \<Rightarrow>
          (let its = filter (\<lambda>it. map_of it attr = Some (JString v)) (table_items tn w);
               page = (if page_limit w = 0 then its else take (page_limit w) its)
           in (Inr \<lparr>Items = page, Count = length page, ScannedCount = length page,
                    LastEvaluatedKey =
                      (if length page < length its then Some (key_of tn (last page))
                       else None)\<rparr>,
               called (Query tn attr v) w)))"

definition docClient_put ::
  "table_name \<Rightarrow> item \<Rightarrow> world \<Rightarrow> (aws_error + unit) \<times> world" where
  "docClient_put tn it w =
     (case next_fault w of
        Some err \<Rightarrow>
          (case item_key tn it of
             None \<Rightarrow> (Inl err, called (Put tn it) w)
           | Some k \<Rightarrow>
               if next_applied w then
                 (Inl err, set_table_items tn (put_item tn it (table_items tn w))
                             (called (Put tn it) w))
               else (Inl err, called (Put tn it) w))
      | None \<Rightarrow>
          (case item_key tn it of
             None \<Rightarrow> (Inl ValidationException, called (Put tn it) w)
           | Some k \<Rightarrow>
               (Inr (), set_table_items tn (put_item tn it (table_items tn w))
                          (called (Put tn it) w))))"

subsection \<open>The three operations\<close>

text \<open>
  What the callback receives as its first argument: the \<^verbatim>\<open>err\<close> object of the document
  client, handed on as it is, or the object literal \<^verbatim>\<open>{error: {message: m}}\<close>.
\<close>

datatype cb_error =
    Raw aws_error
  | ErrorObject string

definition AuthorizationError :: cb_error where
  "AuthorizationError = ErrorObject ''The vehicle requested is not registered under the user.''"

definition NotFoundError :: cb_error where
  "NotFoundError = ErrorObject ''The anomaly record requested does not exist.''"

definition isEmpty :: "get_output \<Rightarrow> bool" where
  "isEmpty data = (case Item data of None \<Rightarrow> True | Some it \<Rightarrow> False)"

definition console_log :: "aws_error \<Rightarrow> world \<Rightarrow> world" where
  "console_log err w = w\<lparr>console := console w @ [err]\<rparr>"

definition listAnomaliesByVehicle ::
  "ticket \<Rightarrow> string \<Rightarrow> world \<Rightarrow> (cb_error + query_output) \<times> world" where
  "listAnomaliesByVehicle tk vin w =
     (case docClient_get ownerTable (cognito_username tk) vin w of
        (Inl err, w1) \<Rightarrow> (Inl (Raw err), console_log err w1)
      | (Inr data, w1) \<Rightarrow>
          if \<not> isEmpty data then
            (case docClient_query ddbTable ''vin'' vin w1 of
               (Inl err, w2) \<Rightarrow> (Inl (Raw err), console_log err w2)
             | (Inr anomaly_data, w2) \<Rightarrow> (Inr anomaly_data, w2))
          else (Inl AuthorizationError, w1))"

definition getVehicleAnomaly ::
  "ticket \<Rightarrow> string \<Rightarrow> string \<Rightarrow> world \<Rightarrow> (cb_error + item) \<times> world" where
  "getVehicleAnomaly tk vin anomalyId w =
     (case docClient_get ownerTable (cognito_username tk) vin w of
        (Inl err, w1) \<Rightarrow> (Inl (Raw err), console_log err w1)
      | (Inr data, w1) \<Rightarrow>
          if \<not> isEmpty data then
            (case docClient_get ddbTable vin anomalyId w1 of
               (Inl err, w2) \<Rightarrow> (Inl (Raw err), console_log err w2)
             | (Inr anomaly_data, w2) \<Rightarrow>
                 (case Item anomaly_data of
                    Some it \<Rightarrow> (Inr it, w2)
                  | None \<Rightarrow> (Inl NotFoundError, w2)))
          else (Inl AuthorizationError, w1))"

definition acknowledgeVehicleAnomaly ::
  "ticket \<Rightarrow> string \<Rightarrow> string \<Rightarrow> world \<Rightarrow> (cb_error + item) \<times> world" where
  "acknowledgeVehicleAnomaly tk vin anomalyId w =
     (case docClient_get ownerTable (cognito_username tk) vin w of
        (Inl err, w1) \<Rightarrow> (Inl (Raw err), console_log err w1)
      | (Inr data, w1) \<Rightarrow>
          if \<not> isEmpty data then
            (case docClient_get ddbTable vin anomalyId w1 of
               (Inl err, w2) \<Rightarrow> (Inl (Raw err), console_log err w2)
             | (Inr anomaly_data, w2) \<Rightarrow>
                 (case Item anomaly_data of
                    Some it \<Rightarrow>
                      (let it' = AList.update ''acknowledged'' (JBool True) it
                       in case docClient_put ddbTable it' w2 of
                            (Inl err, w3) \<Rightarrow> (Inl (Raw err), console_log err w3)
                          | (Inr u, w3) \<Rightarrow> (Inr it', w3))
                  | None \<Rightarrow> (Inl NotFoundError, w2)))
          else (Inl AuthorizationError, w1))"

subsection \<open>The scenario of the specification\<close>

definition alice :: ticket where
  "alice = \<lparr>cognito_username = ''alice'', other_claims = []\<rparr>"

definition bob :: ticket where
  "bob = \<lparr>cognito_username = ''bob'', other_claims = []\<rparr>"

definition rec_A1 :: item where
  "rec_A1 = [(''vin'', JString ''VIN123''), (''anomaly_id'', JString ''A1''),
             (''acknowledged'', JBool False), (''code'', JString ''P0171'')]"

definition rec_A1_acknowledged :: item where
  "rec_A1_acknowledged = [(''vin'', JString ''VIN123''), (''anomaly_id'', JString ''A1''),
             (''acknowledged'', JBool True), (''code'', JString ''P0171'')]"

definition rec_B7 :: item where
  "rec_B7 = [(''vin'', JString ''VIN999''), (''anomaly_id'', JString ''B7''),
             (''code'', JString ''P0300'')]"

definition timeout_error :: aws_error where
  "timeout_error = AWSError ''TimeoutError'' ''Connection timed out''"

definition world0 :: world where
  "world0 = \<lparr>owners = [[(''owner_id'', JString ''alice''), (''vin'', JString ''VIN123'')]],
             anomalies = [rec_B7, rec_A1],
             faults = [], applied = [], page_limit = 0, calls = [], console = []\<rparr>"

definition rec_A2 :: item where
  "rec_A2 = [(''vin'', JString ''VIN123''), (''anomaly_id'', JString ''A2''),
             (''acknowledged'', JBool False), (''code'', JString ''P0420'')]"

text \<open>The same store with a second anomaly of the vehicle, answering one item a page.\<close>

definition world_paged :: world where
  "world_paged = world0\<lparr>anomalies := [rec_B7, rec_A1, rec_A2], page_limit := 1\<rparr>"

text \<open>The same store where the third call times out after the write has been carried out.\<close>

definition world_late_timeout :: world where
  "world_late_timeout =
     world0\<lparr>faults := [None, None, Some timeout_error], applied := [False, False, True]\<rparr>"

subsection \<open>Reading the log and the faults\<close>

text \<open>
  \<open>healthy n w\<close>: the next \<open>n\<close> calls of the document client are answered.
  \<open>is_write\<close> tells the writes among the recorded calls; \<open>is_structured\<close> tells the
  error objects the module builds itself from the errors of the store.
\<close>

definition healthy :: "nat \<Rightarrow> world \<Rightarrow> bool" where
  "healthy n w = list_all (\<lambda>f. f = None) (take n (faults w))"

fun is_write :: "access \<Rightarrow> bool" where
  "is_write (Get tn a b) = False"
| "is_write (Query tn a v) = False"
| "is_write (Put tn it) = True"

definition is_structured :: "cb_error \<Rightarrow> bool" where
  "is_structured e = (case e of ErrorObject m \<Rightarrow> True | Raw err \<Rightarrow> False)"



text \<open>
  The state an acknowledgement leaves when all three of its calls are answered.
\<close>

definition acknowledged_world :: "ticket \<Rightarrow> string \<Rightarrow> string \<Rightarrow> item \<Rightarrow> world \<Rightarrow> world" where
  "acknowledged_world tk vin anomalyId it' w =
     set_table_items ddbTable (put_item ddbTable it' (anomalies w))
       (called (Put ddbTable it')
         (called (Get ddbTable vin anomalyId)
           (called (Get ownerTable (cognito_username tk) vin) w)))"

section \<open>Properties\<close>

subsection \<open>The document client\<close>

lemma called_fields [simp]:
  "owners (called a w) = owners w"
  "anomalies (called a w) = anomalies w"
  "console (called a w) = console w"
  "calls (called a w) = calls w @ [a]"
  "faults (called a w) = drop 1 (faults w)"
  "applied (called a w) = drop 1 (applied w)"
  "page_limit (called a w) = page_limit w"
  by (simp_all add: called_def)

lemma console_log_fields [simp]:
  "owners (console_log e w) = owners w"
  "anomalies (console_log e w) = anomalies w"
  "console (console_log e w) = console w @ [e]"
  "calls (console_log e w) = calls w"
  "faults (console_log e w) = faults w"
  "applied (console_log e w) = applied w"
  "page_limit (console_log e w) = page_limit w"
  by (simp_all add: console_log_def)

lemma set_table_items_fields [simp]:
  "calls (set_table_items tn its w) = calls w"
  "faults (set_table_items tn its w) = faults w"
  "console (set_table_items tn its w) = console w"
  "applied (set_table_items tn its w) = applied w"
  "page_limit (set_table_items tn its w) = page_limit w"
  "owners (set_table_items ddbTable its w) = owners w"
  "anomalies (set_table_items ddbTable its w) = its"
  by (cases tn; simp)+

lemma table_items_called [simp]: "table_items tn (called a w) = table_items tn w"
  by (cases tn) simp_all

lemma healthy_next_fault: "healthy n w \<Longrightarrow> 0 < n \<Longrightarrow> next_fault w = None"
  by (cases n; cases "faults w") (simp_all add: healthy_def next_fault_def)

lemma healthy_called: "healthy n w \<Longrightarrow> healthy (n - 1) (called a w)"
proof (cases n)
  case 0
  then show ?thesis by (simp add: healthy_def)
next
  case (Suc m)
  assume "healthy n w"
  with Suc show ?thesis
    by (cases "faults w") (simp_all add: healthy_def)
qed

lemma healthy_mono: "healthy n w \<Longrightarrow> m \<le> n \<Longrightarrow> healthy m w"
  unfolding healthy_def list_all_iff
  using set_take_subset_set_take [of m n "faults w"] by blast

lemma healthy_Suc:
  "healthy (Suc n) w = (next_fault w = None \<and> healthy n (called a w))"
  by (cases "faults w") (simp_all add: healthy_def next_fault_def)

lemma docClient_get_answered:
  "next_fault w = None \<Longrightarrow>
   docClient_get tn a b w =
     (Inr \<lparr>Item = get_item tn a b (table_items tn w)\<rparr>, called (Get tn a b) w)"
  by (simp add: docClient_get_def)

lemma docClient_put_answered:
  "next_fault w = None \<Longrightarrow> item_key tn it = Some k \<Longrightarrow>
   docClient_put tn it w =
     (Inr (), set_table_items tn (put_item tn it (table_items tn w)) (called (Put tn it) w))"
  by (simp add: docClient_put_def)

subsection \<open>Items and tables\<close>

lemma get_item_key: "get_item tn a b its = Some it \<Longrightarrow> item_key tn it = Some (a, b)"
  by (auto simp: get_item_def find_Some_iff)

lemma map_of_acknowledge:
  "map_of (AList.update ''acknowledged'' v it) k =
     (if k = ''acknowledged'' then Some v else map_of it k)"
  by (simp add: update_conv')

lemma item_key_acknowledge:
  "item_key ddbTable (AList.update ''acknowledged'' v it) = item_key ddbTable it"
  by (simp add: item_key_def map_of_acknowledge cong: option.case_cong jsval.case_cong)

lemma get_item_put_item:
  "item_key tn it = Some (a, b) \<Longrightarrow> get_item tn a b (put_item tn it its) = Some it"
  by (induction its) (auto simp: get_item_def)

lemma get_item_put_item_other:
  "item_key tn it \<noteq> Some (a, b) \<Longrightarrow>
   get_item tn a b (put_item tn it its) = get_item tn a b its"
  by (induction its) (auto simp: get_item_def)

lemma put_item_split:
  "get_item tn a b its = Some old \<Longrightarrow> item_key tn it = Some (a, b) \<Longrightarrow>
   \<exists>pre post. its = pre @ old # post \<and> put_item tn it its = pre @ it # post \<and>
     get_item tn a b pre = None"
proof (induction its)
  case Nil
  then show ?case by (simp add: get_item_def)
next
  case (Cons x xs)
  show ?case
  proof (cases "item_key tn x = Some (a, b)")
    case True
    with Cons.prems have "x = old" by (simp add: get_item_def)
    with True Cons.prems have
      "x # xs = [] @ old # xs \<and> put_item tn it (x # xs) = [] @ it # xs \<and>
       get_item tn a b [] = None"
      by (simp add: get_item_def)
    then show ?thesis by blast
  next
    case False
    with Cons.prems have "get_item tn a b xs = Some old" by (simp add: get_item_def)
    from Cons.IH [OF this Cons.prems(2)] obtain pre post where
      h: "xs = pre @ old # post" "put_item tn it xs = pre @ it # post"
         "get_item tn a b pre = None"
      by blast
    with False Cons.prems(2) have
      "x # xs = (x # pre) @ old # post \<and>
       put_item tn it (x # xs) = (x # pre) @ it # post \<and>
       get_item tn a b (x # pre) = None"
      by (simp add: get_item_def)
    then show ?thesis by blast
  qed
qed

lemma put_item_same:
  "get_item tn a b its = Some it \<Longrightarrow> put_item tn it its = its"
proof (induction its)
  case Nil
  then show ?case by (simp add: get_item_def)
next
  case (Cons x xs)
  from Cons.prems have k: "item_key tn it = Some (a, b)" by (rule get_item_key)
  show ?case
  proof (cases "item_key tn x = Some (a, b)")
    case True
    with Cons.prems k show ?thesis by (simp add: get_item_def)
  next
    case False
    with Cons.prems have "get_item tn a b xs = Some it" by (simp add: get_item_def)
    with Cons.IH False k show ?thesis by simp
  qed
qed

subsection \<open>The operations when the store answers\<close>

lemma acknowledge_answered:
  assumes own: "get_item ownerTable (cognito_username tk) vin (owners w) = Some orec"
    and present: "get_item ddbTable vin anomalyId (anomalies w) = Some it"
    and h: "healthy 3 w"
  shows "acknowledgeVehicleAnomaly tk vin anomalyId w =
           (Inr (AList.update ''acknowledged'' (JBool True) it),
            acknowledged_world tk vin anomalyId (AList.update ''acknowledged'' (JBool True) it) w)"
proof -
  let ?w1 = "called (Get ownerTable (cognito_username tk) vin) w"
  let ?w2 = "called (Get ddbTable vin anomalyId) ?w1"
  let ?it' = "AList.update ''acknowledged'' (JBool True) it"
  from h have f0: "next_fault w = None" by (rule healthy_next_fault) simp
  from healthy_called [OF h] have h1: "healthy 2 ?w1" by simp
  then have f1: "next_fault ?w1 = None" by (rule healthy_next_fault) simp
  from healthy_called [OF h1] have h2: "healthy 1 ?w2" by simp
  then have f2: "next_fault ?w2 = None" by (rule healthy_next_fault) simp
  from present have k: "item_key ddbTable ?it' = Some (vin, anomalyId)"
    by (simp add: item_key_acknowledge get_item_key)
  show ?thesis
    by (simp add: acknowledgeVehicleAnomaly_def acknowledged_world_def
        docClient_get_answered [OF f0] docClient_get_answered [OF f1]
        docClient_put_answered [OF f2 k] own present isEmpty_def Let_def)
qed

lemma getVehicleAnomaly_answered:
  assumes own: "get_item ownerTable (cognito_username tk) vin (owners w) = Some orec"
    and h: "healthy 2 w"
  shows "getVehicleAnomaly tk vin anomalyId w =
           (case get_item ddbTable vin anomalyId (anomalies w) of
              Some it \<Rightarrow> Inr it | None \<Rightarrow> Inl NotFoundError,
            called (Get ddbTable vin anomalyId)
              (called (Get ownerTable (cognito_username tk) vin) w))"
proof -
  let ?w1 = "called (Get ownerTable (cognito_username tk) vin) w"
  from h have f0: "next_fault w = None" by (rule healthy_next_fault) simp
  from healthy_called [OF h] have h1: "healthy 1 ?w1" by simp
  then have f1: "next_fault ?w1 = None" by (rule healthy_next_fault) simp
  show ?thesis
    by (simp add: getVehicleAnomaly_def docClient_get_answered [OF f0]
        docClient_get_answered [OF f1] own isEmpty_def split: option.split)
qed

lemma acknowledge_success:
  assumes ok: "fst (acknowledgeVehicleAnomaly tk vin anomalyId w) = Inr r"
  shows "\<exists>orec it. get_item ownerTable (cognito_username tk) vin (owners w) = Some orec \<and>
           get_item ddbTable vin anomalyId (anomalies w) = Some it \<and>
           healthy 3 w"
proof -
  let ?w1 = "called (Get ownerTable (cognito_username tk) vin) w"
  let ?w2 = "called (Get ddbTable vin anomalyId) ?w1"
  from ok have f0: "next_fault w = None"
    by (auto simp: acknowledgeVehicleAnomaly_def docClient_get_def split: option.splits)
  with ok obtain orec where
    own: "get_item ownerTable (cognito_username tk) vin (owners w) = Some orec"
    by (auto simp: acknowledgeVehicleAnomaly_def docClient_get_answered isEmpty_def
        split: option.splits)
  from ok f0 own have f1: "next_fault ?w1 = None"
    by (auto simp: acknowledgeVehicleAnomaly_def docClient_get_answered isEmpty_def
        docClient_get_def [of ddbTable] split: option.splits)
  with ok f0 own obtain it where
    present: "get_item ddbTable vin anomalyId (anomalies w) = Some it"
    by (auto simp: acknowledgeVehicleAnomaly_def docClient_get_answered isEmpty_def
        split: option.splits)
  from ok f0 own f1 present have f2: "next_fault ?w2 = None"
    by (auto simp: acknowledgeVehicleAnomaly_def docClient_get_answered isEmpty_def Let_def
        docClient_put_def split: option.splits if_splits)
  have "healthy 0 (called (Put ddbTable []) ?w2)" by (simp add: healthy_def)
  with f2 have "healthy (Suc 0) ?w2" by (simp add: healthy_Suc [of _ ?w2 "Put ddbTable []"])
  with f1 have "healthy (Suc (Suc 0)) ?w1"
    by (simp add: healthy_Suc [of _ ?w1 "Get ddbTable vin anomalyId"])
  with f0 have "healthy (Suc (Suc (Suc 0))) w"
    by (simp add: healthy_Suc [of _ w "Get ownerTable (cognito_username tk) vin"])
  then have "healthy 3 w" by (simp add: numeral_3_eq_3)
  with own present show ?thesis by blast
qed

lemma acknowledged_world_fields [simp]:
  "owners (acknowledged_world tk vin anomalyId it' w) = owners w"
  "anomalies (acknowledged_world tk vin anomalyId it' w) = put_item ddbTable it' (anomalies w)"
  "calls (acknowledged_world tk vin anomalyId it' w) =
     calls w @ [Get ownerTable (cognito_username tk) vin, Get ddbTable vin anomalyId,
                Put ddbTable it']"
  "faults (acknowledged_world tk vin anomalyId it' w) = drop 3 (faults w)"
  by (simp_all add: acknowledged_world_def numeral_3_eq_3)

lemma healthy_acknowledged_world:
  "healthy (n + 3) w \<Longrightarrow> healthy n (acknowledged_world tk vin anomalyId it' w)"
  unfolding healthy_def list_all_iff
  by (auto simp: take_drop dest: in_set_dropD)

subsection \<open>The paths of the operations\<close>

lemma next_fault_in_script: "next_fault w = Some e \<Longrightarrow> Some e \<in> set (faults w)"
  by (cases "faults w") (simp_all add: next_fault_def)

lemma faults_called_subset: "x \<in> set (faults (called a w)) \<Longrightarrow> x \<in> set (faults w)"
  by (auto dest: in_set_dropD)

lemma acknowledge_paths:
  "acknowledgeVehicleAnomaly tk vin anomalyId w =
     (let w1 = called (Get ownerTable (cognito_username tk) vin) w;
          w2 = called (Get ddbTable vin anomalyId) w1
      in case next_fault w of
           Some e \<Rightarrow> (Inl (Raw e), console_log e w1)
         | None \<Rightarrow>
             (case get_item ownerTable (cognito_username tk) vin (owners w) of
                None \<Rightarrow> (Inl AuthorizationError, w1)
              | Some orec \<Rightarrow>
                  (case next_fault w1 of
                     Some e \<Rightarrow> (Inl (Raw e), console_log e w2)
                   | None \<Rightarrow>
                       (case get_item ddbTable vin anomalyId (anomalies w) of
                          None \<Rightarrow> (Inl NotFoundError, w2)
                        | Some it \<Rightarrow>
                            (case next_fault w2 of
                               Some e \<Rightarrow>
                                 (Inl (Raw e),
                                  console_log e
                                    (if next_applied w2 then
                                       set_table_items ddbTable
                                         (put_item ddbTable
                                            (AList.update ''acknowledged'' (JBool True) it)
                                            (anomalies w))
                                         (called (Put ddbTable
                                            (AList.update ''acknowledged'' (JBool True) it)) w2)
                                     else
                                       called (Put ddbTable
                                         (AList.update ''acknowledged'' (JBool True) it)) w2))
                             | None \<Rightarrow>
                                 (Inr (AList.update ''acknowledged'' (JBool True) it),
                                  acknowledged_world tk vin anomalyId
                                    (AList.update ''acknowledged'' (JBool True) it) w))))))"
proof -
  have k: "item_key ddbTable (AList.update ''acknowledged'' (JBool True) it) =
             Some (vin, anomalyId)"
    if "get_item ddbTable vin anomalyId (anomalies w) = Some it" for it
    using that by (simp add: item_key_acknowledge get_item_key)
  show ?thesis
    by (auto simp: acknowledgeVehicleAnomaly_def docClient_get_def docClient_put_def
        isEmpty_def Let_def acknowledged_world_def k split: option.splits)
qed

lemma getVehicleAnomaly_paths:
  "getVehicleAnomaly tk vin anomalyId w =
     (let w1 = called (Get ownerTable (cognito_username tk) vin) w;
          w2 = called (Get ddbTable vin anomalyId) w1
      in case next_fault w of
           Some e \<Rightarrow> (Inl (Raw e), console_log e w1)
         | None \<Rightarrow>
             (case get_item ownerTable (cognito_username tk) vin (owners w) of
                None \<Rightarrow> (Inl AuthorizationError, w1)
              | Some orec \<Rightarrow>
                  (case next_fault w1 of
                     Some e \<Rightarrow> (Inl (Raw e), console_log e w2)
                   | None \<Rightarrow>
                       (case get_item ddbTable vin anomalyId (anomalies w) of
                          None \<Rightarrow> (Inl NotFoundError, w2)
                        | Some it \<Rightarrow> (Inr it, w2)))))"
  by (auto simp: getVehicleAnomaly_def docClient_get_def isEmpty_def Let_def
      split: option.splits)

lemma listAnomaliesByVehicle_paths:
  "listAnomaliesByVehicle tk vin w =
     (let w1 = called (Get ownerTable (cognito_username tk) vin) w;
          w2 = called (Query ddbTable ''vin'' vin) w1;
          its = filter (\<lambda>it. map_of it ''vin'' = Some (JString vin)) (anomalies w);
          page = (if page_limit w = 0 then its else take (page_limit w) its)
      in case next_fault w of
           Some e \<Rightarrow> (Inl (Raw e), console_log e w1)
         | None \<Rightarrow>
             (case get_item ownerTable (cognito_username tk) vin (owners w) of
                None \<Rightarrow> (Inl AuthorizationError, w1)
              | Some orec \<Rightarrow>
                  (case next_fault w1 of
                     Some e \<Rightarrow> (Inl (Raw e), console_log e w2)
                   | None \<Rightarrow>
                       (Inr \<lparr>Items = page, Count = length page, ScannedCount = length page,
                             LastEvaluatedKey =
                               (if length page < length its
                                then Some (key_of ddbTable (last page)) else None)\<rparr>,
                        w2))))"
  by (auto simp: listAnomaliesByVehicle_def docClient_get_def docClient_query_def isEmpty_def
      Let_def split: option.splits)

subsection \<open>The scenario, evaluated\<close>

lemmas scenario_defs = world0_def world_paged_def world_late_timeout_def alice_def bob_def
  rec_A1_def rec_A2_def rec_B7_def rec_A1_acknowledged_def
  timeout_error_def

lemmas run_defs = listAnomaliesByVehicle_def getVehicleAnomaly_def acknowledgeVehicleAnomaly_def
  docClient_get_def docClient_query_def docClient_put_def next_fault_def next_applied_def
  called_def key_of_def
  console_log_def isEmpty_def get_item_def item_key_def healthy_def Let_def

lemma world0_alice_owns:
  "get_item ownerTable (cognito_username alice) ''VIN123'' (owners world0) =
     Some [(''owner_id'', JString ''alice''), (''vin'', JString ''VIN123'')]"
  by (simp add: scenario_defs run_defs)

lemma world0_A1_present:
  "get_item ddbTable ''VIN123'' ''A1'' (anomalies world0) = Some rec_A1"
  by (simp add: scenario_defs run_defs)

lemma world0_healthy: "healthy n world0"
  by (simp add: scenario_defs run_defs)

lemma world0_acknowledge:
  "acknowledgeVehicleAnomaly alice ''VIN123'' ''A1'' world0 =
     (Inr rec_A1_acknowledged,
      world0\<lparr>anomalies := [rec_B7, rec_A1_acknowledged],
         calls := [Get ownerTable ''alice'' ''VIN123'', Get ddbTable ''VIN123'' ''A1'',
                   Put ddbTable rec_A1_acknowledged]\<rparr>)"
  by (simp add: scenario_defs run_defs)

subsection \<open>Reads leave the tables alone\<close>

text \<open>
  Claim C9. \<open>listAnomaliesByVehicle\<close> and \<open>getVehicleAnomaly\<close> are read-only: for every
  ticket, vin and anomaly id, every starting state and every outcome, also when a call of
  the store fails, the ownership table and the anomaly table are the same after the call
  as before it, and no write is recorded in the log of store calls.
\<close>

theorem read_only:
  "owners (snd (listAnomaliesByVehicle tk vin w)) = owners w \<and>
   anomalies (snd (listAnomaliesByVehicle tk vin w)) = anomalies w \<and>
   filter is_write (calls (snd (listAnomaliesByVehicle tk vin w))) = filter is_write (calls w) \<and>
   owners (snd (getVehicleAnomaly tk vin anomalyId w)) = owners w \<and>
   anomalies (snd (getVehicleAnomaly tk vin anomalyId w)) = anomalies w \<and>
   filter is_write (calls (snd (getVehicleAnomaly tk vin anomalyId w))) = filter is_write (calls w)"
  by (simp add: listAnomaliesByVehicle_def getVehicleAnomaly_def docClient_get_def
      docClient_query_def isEmpty_def Let_def split: option.split)

theorem read_only_witness:
  "anomalies (snd (listAnomaliesByVehicle alice ''VIN123'' world0)) = [rec_B7, rec_A1] \<and>
   anomalies (snd (getVehicleAnomaly alice ''VIN123'' ''A1'' world0)) = [rec_B7, rec_A1] \<and>
   anomalies (snd (getVehicleAnomaly bob ''VIN123'' ''A1''
       (world0\<lparr>faults := [Some timeout_error]\<rparr>))) = [rec_B7, rec_A1]"
  using read_only [of alice "''VIN123''" world0 "''A1''"]
    read_only [of bob "''VIN123''" "world0\<lparr>faults := [Some timeout_error]\<rparr>" "''A1''"]
  by (simp add: world0_def)

subsection \<open>Ownership gating\<close>

text \<open>
  Claim C1. When the ownership table holds no record under (username of the ticket, vin)
  and the store answers the ownership lookup, each of the three operations returns the
  authorization error, and the only store call it makes is that lookup: nothing is read
  from or written to the anomaly table, which stays as it was.
\<close>

theorem ownership_gating:
  assumes "get_item ownerTable (cognito_username tk) vin (owners w) = None"
    and "next_fault w = None"
  shows "fst (listAnomaliesByVehicle tk vin w) = Inl AuthorizationError \<and>
         calls (snd (listAnomaliesByVehicle tk vin w)) =
           calls w @ [Get ownerTable (cognito_username tk) vin] \<and>
         anomalies (snd (listAnomaliesByVehicle tk vin w)) = anomalies w \<and>
         fst (getVehicleAnomaly tk vin anomalyId w) = Inl AuthorizationError \<and>
         calls (snd (getVehicleAnomaly tk vin anomalyId w)) =
           calls w @ [Get ownerTable (cognito_username tk) vin] \<and>
         anomalies (snd (getVehicleAnomaly tk vin anomalyId w)) = anomalies w \<and>
         fst (acknowledgeVehicleAnomaly tk vin anomalyId w) = Inl AuthorizationError \<and>
         calls (snd (acknowledgeVehicleAnomaly tk vin anomalyId w)) =
           calls w @ [Get ownerTable (cognito_username tk) vin] \<and>
         anomalies (snd (acknowledgeVehicleAnomaly tk vin anomalyId w)) = anomalies w"
  using assms
  by (simp add: listAnomaliesByVehicle_def getVehicleAnomaly_def acknowledgeVehicleAnomaly_def
      docClient_get_answered isEmpty_def)

theorem ownership_gating_witness:
  "get_item ownerTable (cognito_username bob) ''VIN123'' (owners world0) = None \<and>
   next_fault world0 = None \<and>
   fst (getVehicleAnomaly bob ''VIN123'' ''A1'' world0) = Inl AuthorizationError \<and>
   fst (listAnomaliesByVehicle bob ''VIN123'' world0) = Inl AuthorizationError \<and>
   fst (acknowledgeVehicleAnomaly bob ''VIN123'' ''A1'' world0) = Inl AuthorizationError \<and>
   calls (snd (acknowledgeVehicleAnomaly bob ''VIN123'' ''A1'' world0)) =
     [Get ownerTable ''bob'' ''VIN123'']"
proof -
  have h1: "get_item ownerTable (cognito_username bob) ''VIN123'' (owners world0) = None"
    by (simp add: get_item_def item_key_def bob_def world0_def)
  have h2: "next_fault world0 = None"
    by (simp add: next_fault_def world0_def)
  from ownership_gating [OF h1 h2, of "''A1''"] h1 h2 show ?thesis
    by (simp add: bob_def world0_def)
qed

subsection \<open>Acknowledging a record\<close>

text \<open>
  Claim C2. For an authorized (ticket, vin) and an anomaly id present in the anomaly
  table, with the store answering its three calls, \<open>acknowledgeVehicleAnomaly\<close> succeeds
  and returns the stored record with \<open>acknowledged\<close> set to true and every other field as
  it was. Its only write replaces that one record where it stands: the records before and
  after it in the table, the lookup of every other key and the whole ownership table are
  unchanged.
\<close>

theorem acknowledge_frame:
  assumes own: "get_item ownerTable (cognito_username tk) vin (owners w) = Some orec"
    and present: "get_item ddbTable vin anomalyId (anomalies w) = Some it"
    and h: "healthy 3 w"
  shows "\<exists>it' w'. acknowledgeVehicleAnomaly tk vin anomalyId w = (Inr it', w') \<and>
           map_of it' ''acknowledged'' = Some (JBool True) \<and>
           (\<forall>k. k \<noteq> ''acknowledged'' \<longrightarrow> map_of it' k = map_of it k) \<and>
           owners w' = owners w \<and>
           (\<exists>pre post. anomalies w = pre @ it # post \<and> anomalies w' = pre @ it' # post \<and>
              get_item ddbTable vin anomalyId pre = None) \<and>
           get_item ddbTable vin anomalyId (anomalies w') = Some it' \<and>
           (\<forall>a b. (a, b) \<noteq> (vin, anomalyId) \<longrightarrow>
              get_item ddbTable a b (anomalies w') = get_item ddbTable a b (anomalies w)) \<and>
           filter is_write (calls w') = filter is_write (calls w) @ [Put ddbTable it']"
proof -
  let ?it' = "AList.update ''acknowledged'' (JBool True) it"
  let ?w' = "acknowledged_world tk vin anomalyId ?it' w"
  from present have k: "item_key ddbTable ?it' = Some (vin, anomalyId)"
    by (simp add: item_key_acknowledge get_item_key)
  have run: "acknowledgeVehicleAnomaly tk vin anomalyId w = (Inr ?it', ?w')"
    using own present h by (rule acknowledge_answered)
  have fields: "map_of ?it' ''acknowledged'' = Some (JBool True)"
    "\<forall>k. k \<noteq> ''acknowledged'' \<longrightarrow> map_of ?it' k = map_of it k"
    by (simp_all add: map_of_acknowledge)
  from put_item_split [OF present k]
  have one: "\<exists>pre post. anomalies w = pre @ it # post \<and> anomalies ?w' = pre @ ?it' # post \<and>
              get_item ddbTable vin anomalyId pre = None"
    by simp
  have stored: "get_item ddbTable vin anomalyId (anomalies ?w') = Some ?it'"
    using k by (simp add: get_item_put_item)
  have others: "\<forall>a b. (a, b) \<noteq> (vin, anomalyId) \<longrightarrow>
      get_item ddbTable a b (anomalies ?w') = get_item ddbTable a b (anomalies w)"
    using k by (auto simp: get_item_put_item_other)
  have log: "filter is_write (calls ?w') = filter is_write (calls w) @ [Put ddbTable ?it']"
    by simp
  have "owners ?w' = owners w" by simp
  with run fields one stored others log show ?thesis by blast
qed

theorem acknowledge_frame_witness:
  "get_item ownerTable (cognito_username alice) ''VIN123'' (owners world0) =
     Some [(''owner_id'', JString ''alice''), (''vin'', JString ''VIN123'')] \<and>
   get_item ddbTable ''VIN123'' ''A1'' (anomalies world0) = Some rec_A1 \<and>
   healthy 3 world0 \<and>
   fst (acknowledgeVehicleAnomaly alice ''VIN123'' ''A1'' world0) = Inr rec_A1_acknowledged \<and>
   anomalies (snd (acknowledgeVehicleAnomaly alice ''VIN123'' ''A1'' world0)) =
     [rec_B7, rec_A1_acknowledged] \<and>
   get_item ddbTable ''VIN999'' ''B7''
     (anomalies (snd (acknowledgeVehicleAnomaly alice ''VIN123'' ''A1'' world0))) = Some rec_B7"
  using acknowledge_frame [OF world0_alice_owns world0_A1_present world0_healthy]
    world0_alice_owns world0_A1_present world0_healthy [of 3]
  by (simp add: world0_acknowledge) (simp add: scenario_defs run_defs)

text \<open>
  Claim C3. Acknowledging is idempotent: for an authorized (ticket, vin) and a present
  anomaly id, two calls in succession (the store answering all six calls) return the same
  record both times, with \<open>acknowledged\<close> true and every other field as before the first
  call, and both tables after the second call are what they were after the first.
\<close>

theorem acknowledge_idempotent:
  assumes own: "get_item ownerTable (cognito_username tk) vin (owners w) = Some orec"
    and present: "get_item ddbTable vin anomalyId (anomalies w) = Some it"
    and h: "healthy 6 w"
  shows "\<exists>it' w1 w2.
           acknowledgeVehicleAnomaly tk vin anomalyId w = (Inr it', w1) \<and>
           acknowledgeVehicleAnomaly tk vin anomalyId w1 = (Inr it', w2) \<and>
           map_of it' ''acknowledged'' = Some (JBool True) \<and>
           (\<forall>k. k \<noteq> ''acknowledged'' \<longrightarrow> map_of it' k = map_of it k) \<and>
           anomalies w2 = anomalies w1 \<and> owners w2 = owners w1"
proof -
  let ?it' = "AList.update ''acknowledged'' (JBool True) it"
  let ?w1 = "acknowledged_world tk vin anomalyId ?it' w"
  let ?w2 = "acknowledged_world tk vin anomalyId ?it' ?w1"
  from present have k: "item_key ddbTable ?it' = Some (vin, anomalyId)"
    by (simp add: item_key_acknowledge get_item_key)
  from h have h3: "healthy 3 w" by (rule healthy_mono) simp
  have first: "acknowledgeVehicleAnomaly tk vin anomalyId w = (Inr ?it', ?w1)"
    using own present h3 by (rule acknowledge_answered)
  have own1: "get_item ownerTable (cognito_username tk) vin (owners ?w1) = Some orec"
    using own by simp
  have present1: "get_item ddbTable vin anomalyId (anomalies ?w1) = Some ?it'"
    using k by (simp add: get_item_put_item)
  have h1: "healthy 3 ?w1"
    using h by (intro healthy_acknowledged_world) simp
  have again: "AList.update ''acknowledged'' (JBool True) ?it' = ?it'" by simp
  from acknowledge_answered [OF own1 present1 h1]
  have second: "acknowledgeVehicleAnomaly tk vin anomalyId ?w1 = (Inr ?it', ?w2)"
    by (simp only: again)
  from present1 have same: "anomalies ?w2 = anomalies ?w1"
    by (simp add: put_item_same)
  have fields: "map_of ?it' ''acknowledged'' = Some (JBool True)"
    "\<forall>k. k \<noteq> ''acknowledged'' \<longrightarrow> map_of ?it' k = map_of it k"
    by (simp_all add: map_of_acknowledge)
  have "owners ?w2 = owners ?w1" by simp
  with first second fields same show ?thesis by blast
qed

theorem acknowledge_idempotent_witness:
  "get_item ownerTable (cognito_username alice) ''VIN123'' (owners world0) =
     Some [(''owner_id'', JString ''alice''), (''vin'', JString ''VIN123'')] \<and>
   get_item ddbTable ''VIN123'' ''A1'' (anomalies world0) = Some rec_A1 \<and>
   healthy 6 world0 \<and>
   fst (acknowledgeVehicleAnomaly alice ''VIN123'' ''A1''
          (snd (acknowledgeVehicleAnomaly alice ''VIN123'' ''A1'' world0))) =
     Inr rec_A1_acknowledged \<and>
   anomalies (snd (acknowledgeVehicleAnomaly alice ''VIN123'' ''A1''
          (snd (acknowledgeVehicleAnomaly alice ''VIN123'' ''A1'' world0)))) =
     [rec_B7, rec_A1_acknowledged]"
  using acknowledge_idempotent [OF world0_alice_owns world0_A1_present world0_healthy]
    world0_alice_owns world0_A1_present world0_healthy [of 6]
  by (simp add: world0_acknowledge) (simp add: scenario_defs run_defs)

text \<open>
  Claim C4. The acknowledgement persists: when \<open>acknowledgeVehicleAnomaly\<close> has succeeded,
  a following \<open>getVehicleAnomaly\<close> for the same ticket, vin and anomaly id on the resulting
  state (the store answering its two lookups) succeeds and returns the record just
  acknowledged, whose \<open>acknowledged\<close> field is true.
\<close>

theorem acknowledge_persistent:
  assumes ok: "acknowledgeVehicleAnomaly tk vin anomalyId w = (Inr r, w1)"
    and h: "healthy 2 w1"
  shows "fst (getVehicleAnomaly tk vin anomalyId w1) = Inr r \<and>
         map_of r ''acknowledged'' = Some (JBool True)"
proof -
  from ok have "fst (acknowledgeVehicleAnomaly tk vin anomalyId w) = Inr r" by simp
  from acknowledge_success [OF this] obtain orec it where
    own: "get_item ownerTable (cognito_username tk) vin (owners w) = Some orec" and
    present: "get_item ddbTable vin anomalyId (anomalies w) = Some it" and
    h3: "healthy 3 w"
    by blast
  let ?it' = "AList.update ''acknowledged'' (JBool True) it"
  from acknowledge_answered [OF own present h3] ok
  have r: "r = ?it'" and w1: "w1 = acknowledged_world tk vin anomalyId ?it' w"
    by simp_all
  from present have k: "item_key ddbTable ?it' = Some (vin, anomalyId)"
    by (simp add: item_key_acknowledge get_item_key)
  have own1: "get_item ownerTable (cognito_username tk) vin (owners w1) = Some orec"
    using own w1 by simp
  have present1: "get_item ddbTable vin anomalyId (anomalies w1) = Some r"
    using k r w1 by (simp add: get_item_put_item)
  from getVehicleAnomaly_answered [OF own1 h, of anomalyId] present1
  have "fst (getVehicleAnomaly tk vin anomalyId w1) = Inr r" by simp
  moreover have "map_of r ''acknowledged'' = Some (JBool True)"
    using r by (simp add: map_of_acknowledge)
  ultimately show ?thesis by simp
qed

theorem acknowledge_persistent_witness:
  "healthy 2 (snd (acknowledgeVehicleAnomaly alice ''VIN123'' ''A1'' world0)) \<and>
   fst (getVehicleAnomaly alice ''VIN123'' ''A1''
          (snd (acknowledgeVehicleAnomaly alice ''VIN123'' ''A1'' world0))) =
     Inr rec_A1_acknowledged \<and>
   map_of rec_A1_acknowledged ''acknowledged'' = Some (JBool True)"
proof -
  let ?w1 = "world0\<lparr>anomalies := [rec_B7, rec_A1_acknowledged],
         calls := [Get ownerTable ''alice'' ''VIN123'', Get ddbTable ''VIN123'' ''A1'',
                   Put ddbTable rec_A1_acknowledged]\<rparr>"
  have h: "healthy 2 ?w1" by (simp add: scenario_defs run_defs)
  from acknowledge_persistent [OF world0_acknowledge h] h show ?thesis
    by (simp add: world0_acknowledge)
qed

subsection \<open>Listing and fetching\<close>







subsection \<open>Failures of the store\<close>

text \<open>
  Claim C7. The operations stop at the first error. When the ownership lookup fails with
  an error of the store, each of the three operations returns that error and has made no
  other store call, so none on the anomaly table. When the ownership lookup is answered
  for an owner and the read of the anomaly fails inside \<open>acknowledgeVehicleAnomaly\<close>, that
  error is returned, the two lookups are the only store calls made, no write among them,
  and the anomaly table is unchanged.
\<close>

theorem short_circuit:
  "(next_fault w = Some e \<longrightarrow>
      fst (listAnomaliesByVehicle tk vin w) = Inl (Raw e) \<and>
      calls (snd (listAnomaliesByVehicle tk vin w)) =
        calls w @ [Get ownerTable (cognito_username tk) vin] \<and>
      fst (getVehicleAnomaly tk vin anomalyId w) = Inl (Raw e) \<and>
      calls (snd (getVehicleAnomaly tk vin anomalyId w)) =
        calls w @ [Get ownerTable (cognito_username tk) vin] \<and>
      fst (acknowledgeVehicleAnomaly tk vin anomalyId w) = Inl (Raw e) \<and>
      calls (snd (acknowledgeVehicleAnomaly tk vin anomalyId w)) =
        calls w @ [Get ownerTable (cognito_username tk) vin]) \<and>
   (get_item ownerTable (cognito_username tk') vin' (owners w') = Some orec \<and>
    faults w' = None # Some e' # fs \<longrightarrow>
      fst (acknowledgeVehicleAnomaly tk' vin' anomalyId' w') = Inl (Raw e') \<and>
      calls (snd (acknowledgeVehicleAnomaly tk' vin' anomalyId' w')) =
        calls w' @ [Get ownerTable (cognito_username tk') vin', Get ddbTable vin' anomalyId'] \<and>
      anomalies (snd (acknowledgeVehicleAnomaly tk' vin' anomalyId' w')) = anomalies w')"
  by (simp add: listAnomaliesByVehicle_paths getVehicleAnomaly_paths acknowledge_paths Let_def
      next_fault_def)

theorem short_circuit_witness:
  "next_fault (world0\<lparr>faults := [Some timeout_error]\<rparr>) = Some timeout_error \<and>
   fst (listAnomaliesByVehicle alice ''VIN123'' (world0\<lparr>faults := [Some timeout_error]\<rparr>)) =
     Inl (Raw timeout_error) \<and>
   calls (snd (acknowledgeVehicleAnomaly alice ''VIN123'' ''A1''
            (world0\<lparr>faults := [Some timeout_error]\<rparr>))) =
     [Get ownerTable ''alice'' ''VIN123''] \<and>
   get_item ownerTable (cognito_username alice) ''VIN123''
     (owners (world0\<lparr>faults := [None, Some timeout_error]\<rparr>)) =
     Some [(''owner_id'', JString ''alice''), (''vin'', JString ''VIN123'')] \<and>
   fst (acknowledgeVehicleAnomaly alice ''VIN123'' ''A1''
          (world0\<lparr>faults := [None, Some timeout_error]\<rparr>)) = Inl (Raw timeout_error) \<and>
   calls (snd (acknowledgeVehicleAnomaly alice ''VIN123'' ''A1''
            (world0\<lparr>faults := [None, Some timeout_error]\<rparr>))) =
     [Get ownerTable ''alice'' ''VIN123'', Get ddbTable ''VIN123'' ''A1'']"
proof -
  have f: "next_fault (world0\<lparr>faults := [Some timeout_error]\<rparr>) = Some timeout_error"
    by (simp add: next_fault_def)
  have own: "get_item ownerTable (cognito_username alice) ''VIN123''
      (owners (world0\<lparr>faults := [None, Some timeout_error]\<rparr>)) =
      Some [(''owner_id'', JString ''alice''), (''vin'', JString ''VIN123'')]"
    using world0_alice_owns by simp
  from short_circuit [of "world0\<lparr>faults := [Some timeout_error]\<rparr>" timeout_error
      alice "''VIN123''" "''A1''" alice "''VIN123''"
      "world0\<lparr>faults := [None, Some timeout_error]\<rparr>" _ timeout_error "[]" "''A1''"]
    f own
  show ?thesis by (simp add: alice_def world0_def)
qed

text \<open>
  Claim C8 says that every error handed to the caller is a structured value carrying a
  message and never a raw error of the store. The operations pass the \<^verbatim>\<open>err\<close> object of a
  failing store call to the callback as it is (\<^verbatim>\<open>return cb(err, null)\<close>, at all seven
  places): when the ownership lookup times out, the caller receives the time-out error of
  the store.
\<close>

theorem raw_store_error_counterexample:
  "fst (listAnomaliesByVehicle alice ''VIN123'' (world0\<lparr>faults := [Some timeout_error]\<rparr>)) =
     Inl (Raw timeout_error) \<and>
   \<not> is_structured (Raw timeout_error)"
  by (simp add: listAnomaliesByVehicle_paths Let_def next_fault_def is_structured_def)

text \<open>
  Claim C8, amended. Every error returned by one of the three operations is either one of
  the two objects the module builds itself, \<^verbatim>\<open>{error: {message: ...}}\<close> for a vehicle that is
  not registered under the user or for an anomaly record that does not exist, or the error
  object of the store call that failed, passed on unchanged: the error of the ownership
  lookup when that fails, otherwise the error of the second call (the query or the read of
  the anomaly) when that fails, otherwise, in \<open>acknowledgeVehicleAnomaly\<close>, the error of the
  write.
\<close>

theorem errors_returned:
  "(fst (listAnomaliesByVehicle tk vin w) = Inl err \<longrightarrow>
      (err = AuthorizationError \<and> next_fault w = None \<and>
       get_item ownerTable (cognito_username tk) vin (owners w) = None) \<or>
      (\<exists>e. err = Raw e \<and>
         (next_fault w = Some e \<or>
          (next_fault w = None \<and>
           next_fault (called (Get ownerTable (cognito_username tk) vin) w) = Some e)))) \<and>
   (fst (getVehicleAnomaly tk vin anomalyId w) = Inl err \<longrightarrow>
      (err = AuthorizationError \<and> next_fault w = None \<and>
       get_item ownerTable (cognito_username tk) vin (owners w) = None) \<or>
      (err = NotFoundError \<and> next_fault w = None \<and>
       next_fault (called (Get ownerTable (cognito_username tk) vin) w) = None \<and>
       get_item ddbTable vin anomalyId (anomalies w) = None) \<or>
      (\<exists>e. err = Raw e \<and>
         (next_fault w = Some e \<or>
          (next_fault w = None \<and>
           next_fault (called (Get ownerTable (cognito_username tk) vin) w) = Some e)))) \<and>
   (fst (acknowledgeVehicleAnomaly tk vin anomalyId w) = Inl err \<longrightarrow>
      (err = AuthorizationError \<and> next_fault w = None \<and>
       get_item ownerTable (cognito_username tk) vin (owners w) = None) \<or>
      (err = NotFoundError \<and> next_fault w = None \<and>
       next_fault (called (Get ownerTable (cognito_username tk) vin) w) = None \<and>
       get_item ddbTable vin anomalyId (anomalies w) = None) \<or>
      (\<exists>e. err = Raw e \<and>
         (next_fault w = Some e \<or>
          (next_fault w = None \<and>
           next_fault (called (Get ownerTable (cognito_username tk) vin) w) = Some e) \<or>
          (next_fault w = None \<and>
           next_fault (called (Get ownerTable (cognito_username tk) vin) w) = None \<and>
           next_fault (called (Get ddbTable vin anomalyId)
             (called (Get ownerTable (cognito_username tk) vin) w)) = Some e)))) \<and>
   is_structured AuthorizationError \<and> is_structured NotFoundError"
proof -
  have st: "is_structured AuthorizationError" "is_structured NotFoundError"
    by (simp_all add: is_structured_def AuthorizationError_def NotFoundError_def)
  have l: "fst (listAnomaliesByVehicle tk vin w) = Inl err \<longrightarrow>
      (err = AuthorizationError \<and> next_fault w = None \<and>
       get_item ownerTable (cognito_username tk) vin (owners w) = None) \<or>
      (\<exists>e. err = Raw e \<and>
         (next_fault w = Some e \<or>
          (next_fault w = None \<and>
           next_fault (called (Get ownerTable (cognito_username tk) vin) w) = Some e)))"
    by (auto simp: listAnomaliesByVehicle_paths Let_def split: option.splits)
  have g: "fst (getVehicleAnomaly tk vin anomalyId w) = Inl err \<longrightarrow>
      (err = AuthorizationError \<and> next_fault w = None \<and>
       get_item ownerTable (cognito_username tk) vin (owners w) = None) \<or>
      (err = NotFoundError \<and> next_fault w = None \<and>
       next_fault (called (Get ownerTable (cognito_username tk) vin) w) = None \<and>
       get_item ddbTable vin anomalyId (anomalies w) = None) \<or>
      (\<exists>e. err = Raw e \<and>
         (next_fault w = Some e \<or>
          (next_fault w = None \<and>
           next_fault (called (Get ownerTable (cognito_username tk) vin) w) = Some e)))"
    by (auto simp: getVehicleAnomaly_paths Let_def split: option.splits)
  have a: "fst (acknowledgeVehicleAnomaly tk vin anomalyId w) = Inl err \<longrightarrow>
      (err = AuthorizationError \<and> next_fault w = None \<and>
       get_item ownerTable (cognito_username tk) vin (owners w) = None) \<or>
      (err = NotFoundError \<and> next_fault w = None \<and>
       next_fault (called (Get ownerTable (cognito_username tk) vin) w) = None \<and>
       get_item ddbTable vin anomalyId (anomalies w) = None) \<or>
      (\<exists>e. err = Raw e \<and>
         (next_fault w = Some e \<or>
          (next_fault w = None \<and>
           next_fault (called (Get ownerTable (cognito_username tk) vin) w) = Some e) \<or>
          (next_fault w = None \<and>
           next_fault (called (Get ownerTable (cognito_username tk) vin) w) = None \<and>
           next_fault (called (Get ddbTable vin anomalyId)
             (called (Get ownerTable (cognito_username tk) vin) w)) = Some e)))"
    by (auto simp: acknowledge_paths Let_def split: option.splits)
  from l g a st show ?thesis by blast
qed

theorem errors_returned_witness:
  "fst (getVehicleAnomaly bob ''VIN123'' ''A1'' world0) = Inl AuthorizationError \<and>
   is_structured AuthorizationError \<and>
   fst (acknowledgeVehicleAnomaly alice ''VIN123'' ''A1''
          (world0\<lparr>faults := [None, None, Some timeout_error]\<rparr>)) = Inl (Raw timeout_error) \<and>
   next_fault (called (Get ddbTable ''VIN123'' ''A1'')
     (called (Get ownerTable (cognito_username alice) ''VIN123'')
        (world0\<lparr>faults := [None, None, Some timeout_error]\<rparr>))) = Some timeout_error"
proof -
  have a: "fst (getVehicleAnomaly bob ''VIN123'' ''A1'' world0) = Inl AuthorizationError"
    by (simp add: scenario_defs run_defs)
  have b: "fst (acknowledgeVehicleAnomaly alice ''VIN123'' ''A1''
          (world0\<lparr>faults := [None, None, Some timeout_error]\<rparr>)) = Inl (Raw timeout_error)"
    by (simp add: scenario_defs run_defs)
  have c: "next_fault (called (Get ddbTable ''VIN123'' ''A1'')
     (called (Get ownerTable (cognito_username alice) ''VIN123'')
        (world0\<lparr>faults := [None, None, Some timeout_error]\<rparr>))) = Some timeout_error"
    by (simp add: next_fault_def)
  from errors_returned [of bob "''VIN123''" world0 AuthorizationError "''A1''"]
    errors_returned [of alice "''VIN123''" "world0\<lparr>faults := [None, None, Some timeout_error]\<rparr>"
      "Raw timeout_error" "''A1''"] a b c
  show ?thesis by simp
qed




end
